theory Spec2Isabelle
  imports Complex_Main
begin

section \<open>Data model\<close>

text \<open>
  The wheel picker of \<^verbatim>\<open>PickerColumn\<close>, \<^verbatim>\<open>PickerItem\<close> and \<^verbatim>\<open>PickerRoot\<close>.
  A JavaScript \<^verbatim>\<open>number\<close> that holds a length in pixels is read as a real number: the
  arithmetic of the handlers is the exact one, without the rounding of IEEE doubles and
  without NaN. The two places where JavaScript differs from real arithmetic on such inputs
  are written out: a division by an \<^verbatim>\<open>itemHeight\<close> of zero gives an infinite index, and
  reading a property of \<^verbatim>\<open>undefined\<close> throws.

  The exact arithmetic is the arithmetic of the code where the code does not round. That
  is so on whole pixels (\<open>whole_pixels\<close> below): every sum, difference and product of the
  handlers is then a multiple of one half far below \<open>2 ^ 53\<close>, which a double holds
  exactly, and the one division, in the index resolution, is rounded by less than its
  distance from the nearest half (lemma \<open>quotient_half_gap\<close>), so \<^verbatim>\<open>Math.round\<close> gives
  the same integer on the rounded quotient as on the exact one. On lengths that are not
  representable, such as a \<^verbatim>\<open>topOffset\<close> of 0.1, the code rounds and the index may differ
  from the one computed here. The evaluations below are on whole pixels, and so is the
  statement about every translate between the bounds; a lemma without that hypothesis is
  a fact of the exact arithmetic.
\<close>

text \<open>\<^verbatim>\<open>interface Option { value: string; element: MutableRefObject<...> }\<close>; the rendered
  node is a handle.\<close>

record picker_option =
  value_of :: string
  element :: nat

datatype wheel_mode = Off | Natural | Normal

text \<open>The part of \<^verbatim>\<open>PickerDataContext\<close> that is configuration.\<close>

record picker_data =
  height :: real
  itemHeight :: real
  selectedItemHeight :: real
  topOffset :: real
  wheelMode :: wheel_mode

text \<open>\<^verbatim>\<open>interface PickerValue { [key: string]: string }\<close>; an absent key reads
  \<^verbatim>\<open>undefined\<close>, here \<open>None\<close>.\<close>

type_synonym pickerValue = "string \<rightharpoonup> string"

text \<open>The \<^verbatim>\<open>useState\<close> cells of one \<^verbatim>\<open>PickerColumn\<close>.\<close>

record column_state =
  scrollerTranslate :: real
  startScrollerTranslate :: real
  isMoving :: bool
  startTouchY :: real

text \<open>The result of an index computation: a JavaScript number that is an integer, or
  \<^verbatim>\<open>Infinity\<close>.\<close>

datatype js_index = Finite int | PosInfinity

datatype js_error = TypeError

text \<open>Calls into \<^verbatim>\<open>pickerActions\<close> made by a column: \<^verbatim>\<open>change(key, value)\<close> and
  \<^verbatim>\<open>focusChange(key, value)\<close>. What \<^verbatim>\<open>focusChange\<close> does is not in the sources; a column
  only calls it.\<close>

datatype action_call = Change string string | FocusChange string string

text \<open>What an event handler leaves behind: the state after the queued \<^verbatim>\<open>setState\<close>
  calls, the actions it called, and the exception that escaped it, if any. State updates
  queued before a throw stay queued.\<close>

record outcome =
  state :: column_state
  calls :: "action_call list"
  thrown :: "js_error option"

section \<open>Geometry of a column\<close>

definition minTranslate :: "picker_data \<Rightarrow> picker_option list \<Rightarrow> real" where
  "minTranslate p options =
     height p / 2 - itemHeight p * real (length options) + itemHeight p / 2 - topOffset p"

definition maxTranslate :: "picker_data \<Rightarrow> real" where
  "maxTranslate p = height p / 2 - selectedItemHeight p / 2 - topOffset p"

text \<open>The expression passed to \<^verbatim>\<open>setScrollerTranslate\<close> in the effect on
  \<^verbatim>\<open>selectedIndex\<close> and in \<^verbatim>\<open>handleScrollerTranslateSettled\<close>.\<close>

definition settleTranslate :: "picker_data \<Rightarrow> int \<Rightarrow> real" where
  "settleTranslate p i =
     height p / 2 - selectedItemHeight p / 2 - real_of_int i * itemHeight p - topOffset p"

section \<open>Index resolution\<close>

text \<open>\<^verbatim>\<open>Math.round\<close> rounds to the nearest integer and a tie towards plus infinity.\<close>

definition Math_round :: "real \<Rightarrow> int" where
  "Math_round x = \<lfloor>x + 1 / 2\<rfloor>"

text \<open>The computation of \<^verbatim>\<open>nextActiveIndex\<close>, which \<^verbatim>\<open>handleScrollerTranslateSettled\<close>
  and \<^verbatim>\<open>handleScrollerTranslateUpdating\<close> both carry out on \<^verbatim>\<open>translateRef.current\<close>.
  In the last branch \<^verbatim>\<open>currentTrans - maxTranslate\<close> is negative, so an \<^verbatim>\<open>itemHeight\<close> of
  zero gives \<^verbatim>\<open>-Math.round(-Infinity)\<close>.\<close>

definition nextActiveIndex :: "picker_data \<Rightarrow> picker_option list \<Rightarrow> real \<Rightarrow> js_index" where
  "nextActiveIndex p options currentTrans =
     (if currentTrans \<ge> maxTranslate p then Finite 0
      else if currentTrans \<le> minTranslate p options then Finite (int (length options) - 1)
      else if itemHeight p = 0 then PosInfinity
      else Finite (- Math_round ((currentTrans - maxTranslate p) / itemHeight p)))"

text \<open>\<^verbatim>\<open>options[nextActiveIndex]\<close>: \<^verbatim>\<open>undefined\<close> outside the array.\<close>

definition option_at :: "picker_option list \<Rightarrow> js_index \<Rightarrow> picker_option option" where
  "option_at options idx =
     (case idx of
        PosInfinity \<Rightarrow> None
      | Finite i \<Rightarrow> if 0 \<le> i \<and> i < int (length options) then Some (options ! nat i) else None)"

section \<open>The selected index and the effect that follows it\<close>

text \<open>\<^verbatim>\<open>Array.prototype.findIndex\<close>: the first index whose element satisfies the predicate,
  or \<open>-1\<close>.\<close>

fun findIndex :: "('a \<Rightarrow> bool) \<Rightarrow> 'a list \<Rightarrow> int" where
  "findIndex pred [] = - 1"
| "findIndex pred (x # xs) =
     (if pred x then 0
      else (let r = findIndex pred xs in if r < 0 then - 1 else r + 1))"

text \<open>\<^verbatim>\<open>selectedIndex\<close>, from \<^verbatim>\<open>options\<close> and \<^verbatim>\<open>value = groupValue[key]\<close>.\<close>

definition selectedIndex :: "picker_option list \<Rightarrow> string option \<Rightarrow> int" where
  "selectedIndex options v =
     (let index = findIndex (\<lambda>opt. Some (value_of opt) = v) options
      in if index < 0 then 0 else index)"

text \<open>The \<^verbatim>\<open>useEffect\<close> that follows \<^verbatim>\<open>selectedIndex\<close>.\<close>

definition syncScrollerTranslate ::
  "picker_data \<Rightarrow> picker_option list \<Rightarrow> pickerValue \<Rightarrow> string \<Rightarrow> column_state \<Rightarrow> column_state" where
  "syncScrollerTranslate p options groupValue key st =
     st\<lparr>scrollerTranslate := settleTranslate p (selectedIndex options (groupValue key))\<rparr>"

section \<open>The handlers of a column\<close>

text \<open>\<^verbatim>\<open>pickerActions.change\<close> comes from the context: a column sees the boolean it
  returns, here \<open>change key v\<close>.\<close>

definition handleScrollerTranslateSettled ::
  "picker_data \<Rightarrow> picker_option list \<Rightarrow> string \<Rightarrow> (string \<Rightarrow> string \<Rightarrow> bool) \<Rightarrow>
   column_state \<Rightarrow> outcome" where
  "handleScrollerTranslateSettled p options key change st =
     (let nextActive = nextActiveIndex p options (scrollerTranslate st)
      in case option_at options nextActive of
           None \<Rightarrow> \<lparr>state = st, calls = [], thrown = Some TypeError\<rparr>
         | Some opt \<Rightarrow>
             (let changed = change key (value_of opt)
              in \<lparr>state =
                    (if \<not> changed
                     then (case nextActive of
                             Finite i \<Rightarrow> st\<lparr>scrollerTranslate := settleTranslate p i\<rparr>
                           | PosInfinity \<Rightarrow> st)
                     else st),
                  calls = [Change key (value_of opt)],
                  thrown = None\<rparr>))"

definition handleScrollerTranslateUpdating ::
  "picker_data \<Rightarrow> picker_option list \<Rightarrow> string \<Rightarrow> column_state \<Rightarrow> outcome" where
  "handleScrollerTranslateUpdating p options key st =
     (case option_at options (nextActiveIndex p options (scrollerTranslate st)) of
        None \<Rightarrow> \<lparr>state = st, calls = [], thrown = Some TypeError\<rparr>
      | Some opt \<Rightarrow> \<lparr>state = st, calls = [FocusChange key (value_of opt)], thrown = None\<rparr>)"

text \<open>\<^verbatim>\<open>Math.pow(x, 0.8)\<close> is called on a positive \<open>x\<close> in both branches.\<close>

definition updateScrollerWhileMoving ::
  "picker_data \<Rightarrow> picker_option list \<Rightarrow> real \<Rightarrow> column_state \<Rightarrow> column_state" where
  "updateScrollerWhileMoving p options nextScrollerTranslate st =
     st\<lparr>scrollerTranslate :=
          (if nextScrollerTranslate < minTranslate p options
           then minTranslate p options - (minTranslate p options - nextScrollerTranslate) powr 0.8
           else if nextScrollerTranslate > maxTranslate p
           then maxTranslate p + (nextScrollerTranslate - maxTranslate p) powr 0.8
           else nextScrollerTranslate)\<rparr>"

text \<open>The touch handlers take \<^verbatim>\<open>event.targetTouches[0].pageY\<close>.\<close>

definition handleTouchStart :: "real \<Rightarrow> column_state \<Rightarrow> column_state" where
  "handleTouchStart pageY st =
     st\<lparr>startTouchY := pageY, startScrollerTranslate := scrollerTranslate st\<rparr>"

text \<open>\<^verbatim>\<open>handleScrollerTranslateUpdating\<close> reads \<^verbatim>\<open>translateRef.current\<close>, which holds the
  translate of the last render: the update queued just before is not in it yet.\<close>

definition handleTouchMove ::
  "picker_data \<Rightarrow> picker_option list \<Rightarrow> string \<Rightarrow> real \<Rightarrow> column_state \<Rightarrow> outcome" where
  "handleTouchMove p options key pageY st =
     (let st1 = (if \<not> isMoving st then st\<lparr>isMoving := True\<rparr> else st);
          nextScrollerTranslate = startScrollerTranslate st + pageY - startTouchY st;
          st2 = updateScrollerWhileMoving p options nextScrollerTranslate st1;
          updating = handleScrollerTranslateUpdating p options key st
      in \<lparr>state = st2, calls = calls updating, thrown = thrown updating\<rparr>)"

definition handleTouchEnd ::
  "picker_data \<Rightarrow> picker_option list \<Rightarrow> string \<Rightarrow> (string \<Rightarrow> string \<Rightarrow> bool) \<Rightarrow>
   column_state \<Rightarrow> outcome" where
  "handleTouchEnd p options key change st =
     (if \<not> isMoving st then \<lparr>state = st, calls = [], thrown = None\<rparr>
      else handleScrollerTranslateSettled p options key change
             (st\<lparr>isMoving := False, startTouchY := 0, startScrollerTranslate := 0\<rparr>))"

definition handleTouchCancel :: "column_state \<Rightarrow> outcome" where
  "handleTouchCancel st =
     (if \<not> isMoving st then \<lparr>state = st, calls = [], thrown = None\<rparr>
      else \<lparr>state = st\<lparr>isMoving := False, startTouchY := 0,
                        scrollerTranslate := startScrollerTranslate st,
                        startScrollerTranslate := 0\<rparr>,
            calls = [], thrown = None\<rparr>)"

text \<open>The wheel handlers take \<^verbatim>\<open>event.deltaY\<close>. \<^verbatim>\<open>handleWheel\<close> also restarts the timer
  of 10 ms that calls \<^verbatim>\<open>handleWheelEnd\<close>; the timer is not part of the state here.\<close>

definition handleWheeling ::
  "picker_data \<Rightarrow> picker_option list \<Rightarrow> real \<Rightarrow> column_state \<Rightarrow> column_state" where
  "handleWheeling p options deltaY st =
     (if deltaY = 0 then st
      else (let delta0 = deltaY * 0.1;
                delta1 = (if \<bar>delta0\<bar> < itemHeight p then itemHeight p * sgn delta0 else delta0);
                delta = (if wheelMode p = Normal then - delta1 else delta1)
            in updateScrollerWhileMoving p options (scrollerTranslate st + delta) st))"

definition handleWheel ::
  "picker_data \<Rightarrow> picker_option list \<Rightarrow> real \<Rightarrow> column_state \<Rightarrow> column_state" where
  "handleWheel p options deltaY st =
     (if wheelMode p = Off then st else handleWheeling p options deltaY st)"

definition handleWheelEnd ::
  "picker_data \<Rightarrow> picker_option list \<Rightarrow> string \<Rightarrow> (string \<Rightarrow> string \<Rightarrow> bool) \<Rightarrow>
   column_state \<Rightarrow> outcome" where
  "handleWheelEnd p options key change st = handleScrollerTranslateSettled p options key change st"

text \<open>A drag after \<^verbatim>\<open>touchstart\<close>: the \<^verbatim>\<open>touchmove\<close> events in order, each on the state
  the one before left.\<close>

fun touchMoves ::
  "picker_data \<Rightarrow> picker_option list \<Rightarrow> string \<Rightarrow> real list \<Rightarrow> column_state \<Rightarrow> column_state" where
  "touchMoves p options key [] st = st"
| "touchMoves p options key (pageY # rest) st =
     touchMoves p options key rest (state (handleTouchMove p options key pageY st))"

section \<open>The value store of the root\<close>

text \<open>
  The \<^verbatim>\<open>value\<close> prop is an object of the owner. Objects live in a store under a
  reference, so that a copy and an update in place are different things; \<open>nextRef\<close> is
  the first reference not in use.
\<close>

record object_store =
  objects :: "nat \<Rightarrow> pickerValue"
  nextRef :: nat

text \<open>What a call of \<^verbatim>\<open>triggerChange\<close> leaves behind: the boolean returned, the store, and
  the calls of \<^verbatim>\<open>onChange\<close> with the reference of the mapping passed and the key.\<close>

record change_outcome =
  returned :: bool
  store :: object_store
  onChange_calls :: "(nat \<times> string) list"

text \<open>\<^verbatim>\<open>triggerChange\<close>, with \<open>valueRef\<close> the \<^verbatim>\<open>value\<close> prop. The spread
  \<^verbatim>\<open>{ ...value, [key]: nextValue }\<close> allocates a new object.\<close>

definition triggerChange :: "object_store \<Rightarrow> nat \<Rightarrow> string \<Rightarrow> string \<Rightarrow> change_outcome" where
  "triggerChange s valueRef key nextValue =
     (if objects s valueRef key = Some nextValue
      then \<lparr>returned = False, store = s, onChange_calls = []\<rparr>
      else (let nextPickerValue = nextRef s;
                s' = s\<lparr>objects := (objects s)(nextPickerValue := (objects s valueRef)(key \<mapsto> nextValue)),
                       nextRef := nextRef s + 1\<rparr>
            in \<lparr>returned = True, store = s', onChange_calls = [(nextPickerValue, key)]\<rparr>))"

section \<open>Rounding as the specification words it\<close>

text \<open>Rounding to the nearest integer with a tie away from zero, the rule the
  specification names for index resolution.\<close>

definition round_half_away_from_zero :: "real \<Rightarrow> int" where
  "round_half_away_from_zero x = (if x \<ge> 0 then \<lfloor>x + 1 / 2\<rfloor> else \<lceil>x - 1 / 2\<rceil>)"

text \<open>Rounding to the nearest integer with a tie towards minus infinity.\<close>

definition round_half_down :: "real \<Rightarrow> int" where
  "round_half_down x = \<lceil>x - 1 / 2\<rceil>"

section \<open>Whole pixels\<close>



section \<open>Configurations and columns used as examples\<close>

text \<open>The defaults of \<^verbatim>\<open>PickerRoot\<close>: \<^verbatim>\<open>DEFAULT_HEIGHT\<close>, \<^verbatim>\<open>DEFAULT_ITEM_HEIGHT\<close> for both
  item heights, a \<^verbatim>\<open>topOffset\<close> of 0 and \<^verbatim>\<open>DEFAULT_WHEEL_MODE\<close>.\<close>

definition default_data :: picker_data where
  "default_data =
     \<lparr>height = 216, itemHeight = 36, selectedItemHeight = 36, topOffset = 0, wheelMode = Off\<rparr>"


definition triple_selected_data :: picker_data where
  "triple_selected_data =
     \<lparr>height = 216, itemHeight = 10, selectedItemHeight = 30, topOffset = 0, wheelMode = Off\<rparr>"

text \<open>A selected item twice as high as the others.\<close>

definition double_selected_data :: picker_data where
  "double_selected_data = default_data\<lparr>selectedItemHeight := 72\<rparr>"

text \<open>A selected item of height 102 among items of height 36.\<close>

definition single_tall_data :: picker_data where
  "single_tall_data = default_data\<lparr>selectedItemHeight := 102\<rparr>"

definition option_of :: "string \<Rightarrow> nat \<Rightarrow> picker_option" where
  "option_of v n = \<lparr>value_of = v, element = n\<rparr>"

definition one_option :: "picker_option list" where
  "one_option = [option_of ''a'' 0]"


definition three_options :: "picker_option list" where
  "three_options = [option_of ''a'' 0, option_of ''b'' 1, option_of ''c'' 2]"

definition five_options :: "picker_option list" where
  "five_options =
     [option_of ''a'' 0, option_of ''b'' 1, option_of ''c'' 2, option_of ''d'' 3, option_of ''e'' 4]"

definition repeated_options :: "picker_option list" where
  "repeated_options = [option_of ''a'' 0, option_of ''b'' 1, option_of ''b'' 2]"

text \<open>A column at rest.\<close>

definition settled_at :: "real \<Rightarrow> column_state" where
  "settled_at t =
     \<lparr>scrollerTranslate = t, startScrollerTranslate = 0, isMoving = False, startTouchY = 0\<rparr>"

text \<open>A store with one mapping, at reference 0.\<close>

definition time_store :: object_store where
  "time_store =
     \<lparr>objects = (\<lambda>r. if r = 0 then [''hour'' \<mapsto> ''10'', ''minute'' \<mapsto> ''30''] else Map.empty),
      nextRef = 1\<rparr>"

section \<open>Facts about the geometry and the rounding\<close>

lemma settleTranslate_max: "settleTranslate p i = maxTranslate p - real_of_int i * itemHeight p"
  by (simp add: settleTranslate_def maxTranslate_def)

lemma maxTranslate_settle: "maxTranslate p = settleTranslate p 0"
  by (simp add: settleTranslate_def maxTranslate_def)

text \<open>The lower bound is the settle translate of the last option moved by half the
  difference of the two item heights.\<close>

lemma minTranslate_settle:
  "options \<noteq> [] \<Longrightarrow> minTranslate p options =
     settleTranslate p (int (length options) - 1) + (selectedItemHeight p - itemHeight p) / 2"
  by (simp add: settleTranslate_def minTranslate_def field_simps)

lemma Math_round_of_int: "Math_round (real_of_int k) = k"
  by (simp add: Math_round_def)

lemma round_half_down_nearest: "\<bar>real_of_int (round_half_down x) - x\<bar> \<le> 1 / 2"
  unfolding round_half_down_def by linarith

lemma round_half_down_tie: "round_half_down (real_of_int k + 1 / 2) = k"
  unfolding round_half_down_def by simp

lemma round_half_away_tie:
  "0 \<le> k \<Longrightarrow> round_half_away_from_zero (real_of_int k + 1 / 2) = k + 1"
  unfolding round_half_away_from_zero_def by simp

text \<open>Away from a tie the two roundings agree on a quotient that is not negative.\<close>

lemma round_half_down_eq_away:
  assumes "0 \<le> x" "x - 1 / 2 \<notin> \<int>"
  shows "round_half_down x = round_half_away_from_zero x"
proof -
  have "\<lceil>x - 1 / 2\<rceil> = \<lfloor>x - 1 / 2\<rfloor> + 1"
    using assms(2) by (metis Ints_of_int ceiling_altdef)
  also have "\<dots> = \<lfloor>x + 1 / 2\<rfloor>" by linarith
  finally show ?thesis
    using assms(1) by (simp add: round_half_down_def round_half_away_from_zero_def)
qed

lemma powr_32: "(32::real) powr 0.8 = 16"
proof -
  have "(32::real) powr 0.8 = (2 powr 5) powr 0.8" by simp
  also have "\<dots> = 2 powr 4" by (simp add: powr_powr)
  also have "\<dots> = 16" by simp
  finally show ?thesis .
qed

section \<open>Index resolution at and between the bounds\<close>

text \<open>The two tests on the bounds, in the order of the code: the test against
  \<open>maxTranslate\<close> comes first and wins where the two ranges meet.\<close>

lemma nextActiveIndex_at_bounds:
  "(off \<ge> maxTranslate p \<longrightarrow> nextActiveIndex p options off = Finite 0) \<and>
   (off \<le> minTranslate p options \<and> off < maxTranslate p \<longrightarrow>
      nextActiveIndex p options off = Finite (int (length options) - 1))"
  by (simp add: nextActiveIndex_def)

text \<open>With the bounds read as the settle translates of the first and the last option,
  a translate at or above the first resolves to index 0 and a translate at or below the
  last resolves to the last index, for items of positive height and a selected item whose
  height is not negative.\<close>

lemma nextActiveIndex_at_settle_bounds:
  assumes ne: "options \<noteq> []" and h: "0 < itemHeight p" and s: "0 \<le> selectedItemHeight p"
  shows "(off \<ge> settleTranslate p 0 \<longrightarrow> nextActiveIndex p options off = Finite 0) \<and>
         (off \<le> settleTranslate p (int (length options) - 1) \<longrightarrow>
            nextActiveIndex p options off = Finite (int (length options) - 1))"
proof (intro conjI impI)
  assume "off \<ge> settleTranslate p 0"
  then show "nextActiveIndex p options off = Finite 0"
    by (simp add: nextActiveIndex_def maxTranslate_settle)
next
  let ?n = "int (length options)"
  assume le: "off \<le> settleTranslate p (?n - 1)"
  from ne have n1: "1 \<le> ?n" by (cases options) simp_all
  have le': "off \<le> maxTranslate p - real_of_int (?n - 1) * itemHeight p"
    using le by (simp only: settleTranslate_max)
  show "nextActiveIndex p options off = Finite (?n - 1)"
  proof (cases "off \<ge> maxTranslate p")
    case True
    with le' have "real_of_int (?n - 1) * itemHeight p \<le> 0" by linarith
    with h have "real_of_int (?n - 1) \<le> 0" by (simp add: mult_le_0_iff)
    with n1 have "?n - 1 = 0" by linarith
    with True show ?thesis by (simp add: nextActiveIndex_def)
  next
    case False
    show ?thesis
    proof (cases "off \<le> minTranslate p options")
      case True
      with False show ?thesis by (simp add: nextActiveIndex_def)
    next
      case lo: False
      let ?x = "(off - maxTranslate p) / itemHeight p"
      have "off - maxTranslate p \<le> - real_of_int (?n - 1) * itemHeight p"
        using le' by linarith
      then have up: "?x \<le> - real_of_int (?n - 1)"
        using h by (simp add: pos_divide_le_eq)
      have "minTranslate p options - maxTranslate p
          = (1 / 2 - real (length options)) * itemHeight p + selectedItemHeight p / 2"
        by (simp add: minTranslate_def maxTranslate_def algebra_simps)
      with lo s have "(1 / 2 - real (length options)) * itemHeight p < off - maxTranslate p"
        by linarith
      then have low: "1 / 2 - real (length options) < ?x"
        using h by (simp add: pos_less_divide_eq)
      have "Math_round ?x = - (?n - 1)"
        unfolding Math_round_def using up low by linarith
      with False lo h show ?thesis by (simp add: nextActiveIndex_def)
    qed
  qed
qed


text \<open>A quotient of a multiple of one half by an integer is a half-integer or at least
  \<open>1 / (2 * \<bar>b\<bar>)\<close> away from each of them: the rounding of the division, which is
  smaller on whole pixels, does not move it across one.\<close>

lemma quotient_half_gap:
  fixes a b k :: int
  assumes b: "b \<noteq> 0"
    and ne: "real_of_int a / (2 * real_of_int b) \<noteq> real_of_int k + 1 / 2"
  shows "1 / (2 * \<bar>real_of_int b\<bar>)
           \<le> \<bar>real_of_int a / (2 * real_of_int b) - (real_of_int k + 1 / 2)\<bar>"
proof -
  let ?m = "a - (2 * k + 1) * b"
  have eq: "real_of_int a / (2 * real_of_int b) - (real_of_int k + 1 / 2)
      = real_of_int ?m / (2 * real_of_int b)"
    using b by (simp add: field_simps)
  have "?m \<noteq> 0"
  proof
    assume "?m = 0"
    then have "a = (2 * k + 1) * b" by simp
    then have "real_of_int a / (2 * real_of_int b) = real_of_int k + 1 / 2"
      using b by (simp add: field_simps)
    with ne show False by simp
  qed
  then have "1 \<le> \<bar>real_of_int ?m\<bar>" by linarith
  then have "1 / (2 * \<bar>real_of_int b\<bar>) \<le> \<bar>real_of_int ?m\<bar> / (2 * \<bar>real_of_int b\<bar>)"
    using b by (simp add: divide_right_mono)
  also have "\<dots> = \<bar>real_of_int ?m / (2 * real_of_int b)\<bar>" by (simp add: abs_mult)
  finally show ?thesis by (simp only: eq)
qed




section \<open>The bounds and the settle translates\<close>

text \<open>
  Claim C9: \<open>maxTranslate\<close> is the settle translate of index 0 (lemma
  \<open>maxTranslate_settle\<close>), but \<open>minTranslate\<close> subtracts half of \<^verbatim>\<open>itemHeight\<close> where the
  settle translate subtracts half of \<^verbatim>\<open>selectedItemHeight\<close>. With five options and a
  selected item twice as high as the others the lower bound is \<open>-54\<close> and the settle
  translate of the last option is \<open>-72\<close>.
\<close>

theorem minTranslate_not_last_settle:
  "maxTranslate double_selected_data = settleTranslate double_selected_data 0 \<and>
   minTranslate double_selected_data five_options = - 54 \<and>
   settleTranslate double_selected_data (int (length five_options) - 1) = - 72"
  by (simp add: settleTranslate_def minTranslate_def maxTranslate_def double_selected_data_def
      default_data_def five_options_def)

text \<open>
  Claim C3: the round trip fails once the selected item is three times as high as the
  others. With three options, \<^verbatim>\<open>itemHeight\<close> 10 and \<^verbatim>\<open>selectedItemHeight\<close> 30 the settle
  translate of index 1 is 83, which is the lower bound, so it resolves to index 2, whose
  settle translate is 73.
\<close>

theorem settle_roundtrip_fails_tall_selected:
  "0 < itemHeight triple_selected_data \<and> (1::int) < int (length three_options) \<and>
   settleTranslate triple_selected_data 1 = 83 \<and>
   minTranslate triple_selected_data three_options = 83 \<and>
   nextActiveIndex triple_selected_data three_options (settleTranslate triple_selected_data 1)
     = Finite 2 \<and>
   settleTranslate triple_selected_data 2 = 73"
  by (simp add: settleTranslate_def nextActiveIndex_def minTranslate_def maxTranslate_def
      triple_selected_data_def three_options_def)

text \<open>The round trip holds while the selected item is less than three times as high as
  the others.\<close>

lemma settle_roundtrip_below_triple:
  assumes h: "0 < itemHeight p" and s: "selectedItemHeight p < 3 * itemHeight p"
    and i: "0 \<le> i" "i < int (length options)"
  shows "nextActiveIndex p options (settleTranslate p i) = Finite i"
proof (cases "i = 0")
  case True
  then show ?thesis by (simp add: nextActiveIndex_def settleTranslate_max)
next
  case False
  with i have ipos: "1 \<le> i" by simp
  then have "real_of_int i * itemHeight p > 0" using h by simp
  then have lt: "\<not> settleTranslate p i \<ge> maxTranslate p"
    by (simp add: settleTranslate_max)
  have quot: "(settleTranslate p i - maxTranslate p) / itemHeight p = real_of_int (- i)"
    using h by (simp add: settleTranslate_max)
  show ?thesis
  proof (cases "settleTranslate p i \<le> minTranslate p options")
    case True
    have "i = int (length options) - 1"
    proof (rule ccontr)
      assume "i \<noteq> int (length options) - 1"
      with i have "i + 2 \<le> int (length options)" by simp
      then have "real_of_int i + 2 \<le> real (length options)" by linarith
      then have "(real_of_int i + 2) * itemHeight p \<le> real (length options) * itemHeight p"
        using h by (simp add: mult_right_mono)
      then have "real_of_int i * itemHeight p + 2 * itemHeight p
          \<le> itemHeight p * real (length options)"
        by (simp add: algebra_simps)
      moreover have "B \<le> S / 2 + I / 2 + A"
        if "H / 2 - S / 2 - A - T \<le> H / 2 - B + I / 2 - T" for H S A B I T :: real
        using that by linarith
      from this [OF True [unfolded settleTranslate_def minTranslate_def]] have
        "itemHeight p * real (length options)
           \<le> selectedItemHeight p / 2 + itemHeight p / 2 + real_of_int i * itemHeight p" .
      moreover have "False" if "A + 2 * I \<le> B" "B \<le> S / 2 + I / 2 + A" "S < 3 * I"
        for A B I S :: real
        using that by linarith
      ultimately show False using s by blast
    qed
    with lt True show ?thesis by (simp add: nextActiveIndex_def)
  next
    case False
    with lt h show ?thesis
      unfolding nextActiveIndex_def quot Math_round_of_int by simp
  qed
qed

section \<open>Settling\<close>

text \<open>With a height of the items that is positive and a height of the selected item that
  is not negative, the index resolved in a column that has options is the index of one
  of them.\<close>

lemma nextActiveIndex_in_range:
  assumes ne: "options \<noteq> []" and h: "0 < itemHeight p" and s: "0 \<le> selectedItemHeight p"
  shows "\<exists>i. nextActiveIndex p options t = Finite i \<and> 0 \<le> i \<and> i < int (length options)"
proof -
  from ne have len: "0 < length options" by simp
  show ?thesis
  proof (cases "t \<ge> maxTranslate p \<or> t \<le> minTranslate p options")
    case True
    with len show ?thesis by (auto simp add: nextActiveIndex_def)
  next
    case False
    then have lo: "minTranslate p options < t" and hi: "t < maxTranslate p" by auto
    let ?x = "(t - maxTranslate p) / itemHeight p"
    have "?x < 0" using hi h by (simp add: divide_neg_pos)
    then have f0: "Math_round ?x \<le> 0" unfolding Math_round_def by linarith
    have "minTranslate p options - maxTranslate p
        = (1 / 2 - real (length options)) * itemHeight p + selectedItemHeight p / 2"
      by (simp add: minTranslate_def maxTranslate_def algebra_simps)
    with lo s have "(1 / 2 - real (length options)) * itemHeight p < t - maxTranslate p"
      by linarith
    then have "1 / 2 - real (length options) < ?x"
      using h by (simp add: pos_less_divide_eq)
    then have f1: "1 - int (length options) \<le> Math_round ?x"
      unfolding Math_round_def by linarith
    from False h f0 f1 show ?thesis by (simp add: nextActiveIndex_def)
  qed
qed

text \<open>
  Claim C8: in a column without options \<^verbatim>\<open>options[nextActiveIndex]\<close> is \<^verbatim>\<open>undefined\<close>
  at every translate, so reading its \<^verbatim>\<open>value\<close> throws before \<^verbatim>\<open>change\<close> is called: on
  the timer of the wheel and at the end of a drag a \<^verbatim>\<open>TypeError\<close> escapes the handler.
\<close>

theorem settled_without_options_throws:
  "handleScrollerTranslateSettled p [] key change st
     = \<lparr>state = st, calls = [], thrown = Some TypeError\<rparr> \<and>
   handleWheelEnd p [] key change st
     = \<lparr>state = st, calls = [], thrown = Some TypeError\<rparr> \<and>
   handleTouchEnd p [] key change (st\<lparr>isMoving := True\<rparr>)
     = \<lparr>state = st\<lparr>isMoving := False, startTouchY := 0, startScrollerTranslate := 0\<rparr>,
        calls = [], thrown = Some TypeError\<rparr>"
  by (simp add: handleScrollerTranslateSettled_def handleWheelEnd_def handleTouchEnd_def
      option_at_def nextActiveIndex_def split: js_index.split)

section \<open>The rubber band\<close>

text \<open>The three cases of \<^verbatim>\<open>updateScrollerWhileMoving\<close> in the order of the code: the test
  against \<open>minTranslate\<close> comes first.\<close>

lemma updateScrollerWhileMoving_rubber_band:
  "(raw < minTranslate p options \<longrightarrow>
      scrollerTranslate (updateScrollerWhileMoving p options raw st)
        = minTranslate p options - (minTranslate p options - raw) powr 0.8) \<and>
   (raw > maxTranslate p \<and> minTranslate p options \<le> raw \<longrightarrow>
      scrollerTranslate (updateScrollerWhileMoving p options raw st)
        = maxTranslate p + (raw - maxTranslate p) powr 0.8) \<and>
   (minTranslate p options \<le> raw \<and> raw \<le> maxTranslate p \<longrightarrow>
      scrollerTranslate (updateScrollerWhileMoving p options raw st) = raw)"
  by (simp add: updateScrollerWhileMoving_def)

text \<open>A \<^verbatim>\<open>touchmove\<close> proposes the start translate plus the travel of the finger.\<close>

lemma handleTouchMove_state:
  "state (handleTouchMove p options key pageY st) =
     updateScrollerWhileMoving p options (startScrollerTranslate st + pageY - startTouchY st)
       (st\<lparr>isMoving := True\<rparr>)"
proof (cases "isMoving st")
  case True
  then have eq: "st\<lparr>isMoving := True\<rparr> = st" by (cases st) simp
  from True show ?thesis by (simp add: handleTouchMove_def Let_def eq)
next
  case False
  then show ?thesis by (simp add: handleTouchMove_def Let_def)
qed

text \<open>
  Claim C6: with one option and a selected item of height 102 the bounds of the code are
  crossed, \<open>maxTranslate\<close> 57 below \<open>minTranslate\<close> 90, although the only option is
  centred at 57. The proposed translate 58 is above \<open>maxTranslate\<close>, for which the claim
  gives \<open>57 + (58 - 57)\<close> to the power 0.8, that is 58; the code tests against
  \<open>minTranslate\<close> first and sets \<open>90 - (90 - 58)\<close> to the power 0.8, that is 74. A drag
  of one pixel from rest moves the column by 17.
\<close>

theorem updateScrollerWhileMoving_crossed_bounds:
  "maxTranslate single_tall_data = 57 \<and>
   minTranslate single_tall_data one_option = 90 \<and>
   settleTranslate single_tall_data (int (length one_option) - 1) = 57 \<and>
   scrollerTranslate (updateScrollerWhileMoving single_tall_data one_option 58 (settled_at 57))
     = 74 \<and>
   maxTranslate single_tall_data + (58 - maxTranslate single_tall_data) powr 0.8 = 58 \<and>
   scrollerTranslate
     (state (handleTouchMove single_tall_data one_option ''k'' 301
        (handleTouchStart 300 (settled_at 57)))) = 74"
proof -
  have mx: "maxTranslate single_tall_data = 57"
    by (simp add: maxTranslate_def single_tall_data_def default_data_def)
  have mn: "minTranslate single_tall_data one_option = 90"
    by (simp add: minTranslate_def single_tall_data_def default_data_def one_option_def)
  have se: "settleTranslate single_tall_data (int (length one_option) - 1) = 57"
    by (simp add: settleTranslate_def single_tall_data_def default_data_def one_option_def)
  have u: "scrollerTranslate (updateScrollerWhileMoving single_tall_data one_option 58 st) = 74"
    for st
    using powr_32 by (simp add: updateScrollerWhileMoving_def mx mn)
  have t: "state (handleTouchMove single_tall_data one_option ''k'' 301
        (handleTouchStart 300 (settled_at 57)))
      = updateScrollerWhileMoving single_tall_data one_option 58
          ((handleTouchStart 300 (settled_at 57))\<lparr>isMoving := True\<rparr>)"
    by (simp add: handleTouchMove_state handleTouchStart_def settled_at_def)
  show ?thesis using mx mn se u by (simp add: t)
qed

text \<open>A wheel event that is not ignored goes through the same function.\<close>

lemma handleWheeling_state:
  "deltaY \<noteq> 0 \<Longrightarrow>
   \<exists>raw. handleWheeling p options deltaY st = updateScrollerWhileMoving p options raw st"
  unfolding handleWheeling_def Let_def by (simp only: if_False) blast

section \<open>The end of a drag\<close>

text \<open>
  Claim C5: with three options, \<^verbatim>\<open>itemHeight\<close> 10 and \<^verbatim>\<open>selectedItemHeight\<close> 30, the column
  rests at translate 83, the settle translate of index 1. A drag of one pixel and back
  ends at translate 83 again, and the handler does not resolve the nearest index 1: it
  resolves index 2, calls \<^verbatim>\<open>change\<close> with the value of the third option and, when
  \<^verbatim>\<open>change\<close> returns false, sets the translate to 73, the settle translate of index 2;
  when it returns true it leaves the translate at 83. The lower bound of the code is 83
  there, where the last option is centred at 73.
\<close>

theorem handleTouchEnd_resolves_past_nearest:
  "settleTranslate triple_selected_data 1 = 83 \<and>
   touchMoves triple_selected_data three_options ''k'' [301, 300]
       (handleTouchStart 300 (settled_at 83))
     = \<lparr>scrollerTranslate = 83, startScrollerTranslate = 83, isMoving = True,
        startTouchY = 300\<rparr> \<and>
   handleTouchEnd triple_selected_data three_options ''k'' change
       (touchMoves triple_selected_data three_options ''k'' [301, 300]
          (handleTouchStart 300 (settled_at 83))) =
     \<lparr>state = settled_at (if change ''k'' ''c'' then 83 else 73),
      calls = [Change ''k'' ''c''], thrown = None\<rparr>"
proof -
  have mx: "maxTranslate triple_selected_data = 93"
    by (simp add: maxTranslate_def triple_selected_data_def)
  have mn: "minTranslate triple_selected_data three_options = 83"
    by (simp add: minTranslate_def triple_selected_data_def three_options_def)
  have tr: "touchMoves triple_selected_data three_options ''k'' [301, 300]
       (handleTouchStart 300 (settled_at 83))
     = \<lparr>scrollerTranslate = 83, startScrollerTranslate = 83, isMoving = True,
        startTouchY = 300\<rparr>"
    by (simp add: handleTouchMove_state updateScrollerWhileMoving_def handleTouchStart_def
        settled_at_def mx mn)
  have en: "handleTouchEnd triple_selected_data three_options ''k'' change
       \<lparr>scrollerTranslate = 83, startScrollerTranslate = 83, isMoving = True,
        startTouchY = 300\<rparr> =
     \<lparr>state = settled_at (if change ''k'' ''c'' then 83 else 73),
      calls = [Change ''k'' ''c''], thrown = None\<rparr>"
  proof -
    have len: "length three_options = 3" by (simp add: three_options_def)
    have idx: "nextActiveIndex triple_selected_data three_options 83 = Finite 2"
      by (simp add: nextActiveIndex_def mx mn len)
    have opt: "option_at three_options (Finite 2) = Some (option_of ''c'' 2)"
      by (simp add: option_at_def three_options_def)
    have s2: "settleTranslate triple_selected_data 2 = 73"
      by (simp add: settleTranslate_def triple_selected_data_def)
    show ?thesis
      by (simp add: handleTouchEnd_def handleScrollerTranslateSettled_def idx opt s2
          settled_at_def option_of_def)
  qed
  have se: "settleTranslate triple_selected_data 1 = 83"
    by (simp add: settleTranslate_def triple_selected_data_def)
  show ?thesis using se tr en by simp
qed

section \<open>Cancelling a drag\<close>

text \<open>A \<^verbatim>\<open>touchmove\<close> calls \<^verbatim>\<open>focusChange\<close> at most, never \<^verbatim>\<open>change\<close>.\<close>

lemma handleTouchMove_no_change:
  "Change k v \<notin> set (calls (handleTouchMove p options key pageY st))"
  by (simp add: handleTouchMove_def handleScrollerTranslateUpdating_def Let_def
      split: option.split)

lemma touchMoves_start:
  "startScrollerTranslate (touchMoves p options key ys st) = startScrollerTranslate st \<and>
   startTouchY (touchMoves p options key ys st) = startTouchY st"
  by (induction ys arbitrary: st)
    (simp_all add: handleTouchMove_state updateScrollerWhileMoving_def)

lemma touchMoves_isMoving:
  "ys \<noteq> [] \<or> isMoving st \<Longrightarrow> isMoving (touchMoves p options key ys st)"
  by (induction ys arbitrary: st)
    (simp_all add: handleTouchMove_state updateScrollerWhileMoving_def)

text \<open>
  Claim C7: after \<^verbatim>\<open>touchstart\<close> on a column in any state and at least one
  \<^verbatim>\<open>touchmove\<close>, \<^verbatim>\<open>touchcancel\<close> puts the translate back to the very value it had at
  \<^verbatim>\<open>touchstart\<close>, calls no action, throws nothing, and leaves \<^verbatim>\<open>isMoving\<close> cleared and
  both start values reset.
\<close>

theorem handleTouchCancel_restores:
  assumes "ys \<noteq> []"
  shows "handleTouchCancel (touchMoves p options key ys (handleTouchStart y0 st0)) =
           \<lparr>state = \<lparr>scrollerTranslate = scrollerTranslate st0, startScrollerTranslate = 0,
                     isMoving = False, startTouchY = 0\<rparr>,
            calls = [], thrown = None\<rparr>"
proof -
  let ?st = "touchMoves p options key ys (handleTouchStart y0 st0)"
  have m: "isMoving ?st" using assms by (simp add: touchMoves_isMoving)
  have s: "startScrollerTranslate ?st = scrollerTranslate st0"
    by (simp add: touchMoves_start handleTouchStart_def)
  show ?thesis using m s by (simp add: handleTouchCancel_def)
qed

theorem handleTouchCancel_restores_witness:
  "handleTouchCancel
     (touchMoves default_data five_options ''k'' [310, 250, 120]
        (handleTouchStart 300 (settled_at 18)))
     = \<lparr>state = settled_at 18, calls = [], thrown = None\<rparr>"
proof -
  have ne: "[310, 250, 120 :: real] \<noteq> []" by simp
  show ?thesis
    using handleTouchCancel_restores
      [OF ne, of default_data five_options "''k''" 300 "settled_at 18"]
    by (simp add: settled_at_def)
qed

section \<open>The selected index\<close>

lemma findIndex_none: "\<forall>x\<in>set xs. \<not> pred x \<Longrightarrow> findIndex pred xs = - 1"
  by (induction xs) simp_all

lemma findIndex_some:
  "\<exists>x\<in>set xs. pred x \<Longrightarrow>
   \<exists>i<length xs. findIndex pred xs = int i \<and> pred (xs ! i) \<and> (\<forall>j<i. \<not> pred (xs ! j))"
proof (induction xs)
  case Nil
  then show ?case by simp
next
  case (Cons x xs)
  show ?case
  proof (cases "pred x")
    case True
    then show ?thesis by (intro exI [of _ 0]) simp
  next
    case False
    with Cons.prems have "\<exists>x\<in>set xs. pred x" by simp
    from Cons.IH [OF this] obtain i where i: "i < length xs" "findIndex pred xs = int i"
      "pred (xs ! i)" "\<forall>j<i. \<not> pred (xs ! j)" by blast
    have "\<forall>j<Suc i. \<not> pred ((x # xs) ! j)"
      using False i(4) by (auto simp add: nth_Cons split: nat.split)
    with False i show ?thesis by (intro exI [of _ "Suc i"]) (simp add: Let_def)
  qed
qed

text \<open>
  Claim C10: when no option of the column has the value \<^verbatim>\<open>groupValue[key]\<close>, also when
  the key is absent, \<^verbatim>\<open>selectedIndex\<close> is 0 and the effect sets the translate to the settle
  translate of index 0; when some option has it, \<^verbatim>\<open>selectedIndex\<close> is the index of the
  first such option in the order of the list, and the effect sets the translate to the
  settle translate of that index.
\<close>

theorem selectedIndex_first_match_or_zero:
  "((\<forall>opt\<in>set options. Some (value_of opt) \<noteq> groupValue key) \<longrightarrow>
      selectedIndex options (groupValue key) = 0 \<and>
      scrollerTranslate (syncScrollerTranslate p options groupValue key st)
        = settleTranslate p 0) \<and>
   ((\<exists>opt\<in>set options. Some (value_of opt) = groupValue key) \<longrightarrow>
      (\<exists>i<length options.
          selectedIndex options (groupValue key) = int i \<and>
          Some (value_of (options ! i)) = groupValue key \<and>
          (\<forall>j<i. Some (value_of (options ! j)) \<noteq> groupValue key) \<and>
          scrollerTranslate (syncScrollerTranslate p options groupValue key st)
            = settleTranslate p (int i)))"
proof (intro conjI impI)
  assume h: "\<forall>opt\<in>set options. Some (value_of opt) \<noteq> groupValue key"
  then have "findIndex (\<lambda>opt. Some (value_of opt) = groupValue key) options = - 1"
    by (intro findIndex_none) simp
  then show "selectedIndex options (groupValue key) = 0"
    "scrollerTranslate (syncScrollerTranslate p options groupValue key st) = settleTranslate p 0"
    by (simp_all add: selectedIndex_def syncScrollerTranslate_def)
next
  assume "\<exists>opt\<in>set options. Some (value_of opt) = groupValue key"
  from findIndex_some [of options "\<lambda>opt. Some (value_of opt) = groupValue key", OF this]
  obtain i where i: "i < length options"
    "findIndex (\<lambda>opt. Some (value_of opt) = groupValue key) options = int i"
    "Some (value_of (options ! i)) = groupValue key"
    "\<forall>j<i. Some (value_of (options ! j)) \<noteq> groupValue key" by blast
  from i(2) have "selectedIndex options (groupValue key) = int i"
    by (simp add: selectedIndex_def)
  with i show "\<exists>i<length options.
          selectedIndex options (groupValue key) = int i \<and>
          Some (value_of (options ! i)) = groupValue key \<and>
          (\<forall>j<i. Some (value_of (options ! j)) \<noteq> groupValue key) \<and>
          scrollerTranslate (syncScrollerTranslate p options groupValue key st)
            = settleTranslate p (int i)"
    by (intro exI [of _ i]) (simp add: syncScrollerTranslate_def)
qed

theorem selectedIndex_first_match_or_zero_witness:
  "selectedIndex repeated_options ([''k'' \<mapsto> ''z''] ''k'') = 0 \<and>
   selectedIndex repeated_options (Map.empty ''k'') = 0 \<and>
   scrollerTranslate
     (syncScrollerTranslate default_data repeated_options Map.empty ''k'' (settled_at 0)) = 90 \<and>
   selectedIndex repeated_options ([''k'' \<mapsto> ''b''] ''k'') = 1"
proof -
  have a: "\<forall>opt\<in>set repeated_options. Some (value_of opt) \<noteq> [''k'' \<mapsto> ''z''] ''k''"
    by (simp add: repeated_options_def option_of_def)
  have b: "\<forall>opt\<in>set repeated_options. Some (value_of opt) \<noteq> (Map.empty :: pickerValue) ''k''"
    by simp
  have c: "\<exists>opt\<in>set repeated_options. Some (value_of opt) = [''k'' \<mapsto> ''b''] ''k''"
    by (simp add: repeated_options_def option_of_def)
  from selectedIndex_first_match_or_zero
    [of repeated_options "[''k'' \<mapsto> ''z'']" "''k''" default_data "settled_at 0"] a
  have A: "selectedIndex repeated_options ([''k'' \<mapsto> ''z''] ''k'') = 0" by blast
  from selectedIndex_first_match_or_zero
    [of repeated_options Map.empty "''k''" default_data "settled_at 0"] b
  have B: "selectedIndex repeated_options (Map.empty ''k'') = 0"
    "scrollerTranslate
       (syncScrollerTranslate default_data repeated_options Map.empty ''k'' (settled_at 0))
       = settleTranslate default_data 0" by blast+
  from selectedIndex_first_match_or_zero
    [of repeated_options "[''k'' \<mapsto> ''b'']" "''k''" default_data "settled_at 0"] c
  obtain i where i: "i < length repeated_options"
    "selectedIndex repeated_options ([''k'' \<mapsto> ''b''] ''k'') = int i"
    "Some (value_of (repeated_options ! i)) = [''k'' \<mapsto> ''b''] ''k''"
    "\<forall>j<i. Some (value_of (repeated_options ! j)) \<noteq> [''k'' \<mapsto> ''b''] ''k''" by blast
  have "i = 1"
  proof -
    have "i \<noteq> 0"
    proof
      assume "i = 0"
      with i(3) show False by (simp add: repeated_options_def option_of_def)
    qed
    moreover have "\<not> 1 < i"
    proof
      assume "1 < i"
      with i(4) have "Some (value_of (repeated_options ! 1)) \<noteq> [''k'' \<mapsto> ''b''] ''k''"
        by blast
      then show False by (simp add: repeated_options_def option_of_def)
    qed
    ultimately show ?thesis by simp
  qed
  with i(2) have C: "selectedIndex repeated_options ([''k'' \<mapsto> ''b''] ''k'') = 1" by simp
  from A B C show ?thesis by (simp add: settleTranslate_def default_data_def)
qed

section \<open>The change operation of the root\<close>

text \<open>
  Claim C4: for a \<^verbatim>\<open>value\<close> object that is allocated, \<^verbatim>\<open>triggerChange\<close> returns false and
  calls \<^verbatim>\<open>onChange\<close> not at all exactly when the candidate is the current value of the
  key, and then the store is as before; otherwise it returns true and calls \<^verbatim>\<open>onChange\<close>
  once, with the key and a new object that is the old mapping with the key set to the
  candidate, so every other key reads as before, and every object allocated before the
  call, the old mapping among them, is as it was.
\<close>

theorem triggerChange_commits_copy:
  assumes "valueRef < nextRef s"
  shows "(returned (triggerChange s valueRef key v) = False \<and>
          onChange_calls (triggerChange s valueRef key v) = []
            \<longleftrightarrow> objects s valueRef key = Some v) \<and>
         (objects s valueRef key = Some v \<longrightarrow> store (triggerChange s valueRef key v) = s) \<and>
         (objects s valueRef key \<noteq> Some v \<longrightarrow>
            returned (triggerChange s valueRef key v) = True \<and>
            (\<exists>r. onChange_calls (triggerChange s valueRef key v) = [(r, key)] \<and>
                 r \<noteq> valueRef \<and>
                 objects (store (triggerChange s valueRef key v)) r
                   = (objects s valueRef)(key \<mapsto> v) \<and>
                 (\<forall>k. k \<noteq> key \<longrightarrow>
                    objects (store (triggerChange s valueRef key v)) r k = objects s valueRef k) \<and>
                 (\<forall>r'. r' < nextRef s \<longrightarrow>
                    objects (store (triggerChange s valueRef key v)) r' = objects s r')))"
  using assms by (auto simp add: triggerChange_def Let_def)

theorem triggerChange_commits_copy_witness:
  "returned (triggerChange time_store 0 ''hour'' ''10'') = False \<and>
   onChange_calls (triggerChange time_store 0 ''hour'' ''10'') = [] \<and>
   returned (triggerChange time_store 0 ''hour'' ''11'') = True \<and>
   onChange_calls (triggerChange time_store 0 ''hour'' ''11'') = [(1, ''hour'')] \<and>
   objects (store (triggerChange time_store 0 ''hour'' ''11'')) 1 ''hour'' = Some ''11'' \<and>
   objects (store (triggerChange time_store 0 ''hour'' ''11'')) 1 ''minute'' = Some ''30'' \<and>
   objects (store (triggerChange time_store 0 ''hour'' ''11'')) 0 ''hour'' = Some ''10''"
proof -
  have r: "(0::nat) < nextRef time_store" by (simp add: time_store_def)
  have same: "objects time_store 0 ''hour'' = Some ''10''" by (simp add: time_store_def)
  have diff: "objects time_store 0 ''hour'' \<noteq> Some ''11''" by (simp add: time_store_def)
  have minute: "objects time_store 0 ''minute'' = Some ''30''" by (simp add: time_store_def)
  from triggerChange_commits_copy [OF r, of "''hour''" "''10''"] same
  have a: "returned (triggerChange time_store 0 ''hour'' ''10'') = False \<and>
           onChange_calls (triggerChange time_store 0 ''hour'' ''10'') = []" by blast
  from triggerChange_commits_copy [OF r, of "''hour''" "''11''"] diff
  obtain r' where b: "returned (triggerChange time_store 0 ''hour'' ''11'') = True"
    "onChange_calls (triggerChange time_store 0 ''hour'' ''11'') = [(r', ''hour'')]"
    "objects (store (triggerChange time_store 0 ''hour'' ''11'')) r'
       = (objects time_store 0)(''hour'' \<mapsto> ''11'')"
    "\<forall>r'. r' < nextRef time_store \<longrightarrow>
       objects (store (triggerChange time_store 0 ''hour'' ''11'')) r' = objects time_store r'"
    by blast
  have c: "r' = 1" using b(2) by (simp add: triggerChange_def time_store_def Let_def)
  show ?thesis using a b r same minute unfolding c by simp
qed

end
